theory Spec2Isabelle
  imports Complex_Main "HOL-Library.Log_Nat"
begin

section \<open>Data model\<close>

text \<open>
  The version of a save is a number that the sources only compare; it is kept as the
  rational it stands for. The numbers that the sources compute with are doubles, modelled
  further down.
\<close>

type_synonym number = rat

text \<open>
  Modelled from the spec: the declarations of \<open>../models\<close> (ICountCard, IDeck, ISave)
  are not among the sources. The spec describes a save as a versioned record with a
  collection (card identifier and owned count), decks (a name and an ordered list of
  card identifier and count) and user preferences, identified by a user id.
\<close>

type_synonym ICountCard = "string \<times> int"

type_synonym IDeck = "string \<times> ICountCard list"

type_synonym ISettings = "(string \<times> string) list"

text \<open>The user data of the authentication service; the sources read its \<open>uid\<close> only.\<close>

record IUser =
  uid :: string

record ISave =
  uid :: string
  version :: number
  collection :: "ICountCard list"
  decks :: "IDeck list"
  settings :: ISettings

text \<open>
  A save object as \<open>JSON.parse\<close> returns it (TypeScript \<open>any\<close>): every field may be
  missing.
\<close>

record RawSave =
  raw_uid :: "string option"
  raw_version :: "number option"
  raw_collection :: "ICountCard list option"
  raw_decks :: "IDeck list option"
  raw_settings :: "ISettings option"

text \<open>A typed save seen as a plain object again: every field is present.\<close>

definition toRaw :: "ISave \<Rightarrow> RawSave" where
  "toRaw s =
     \<lparr>raw_uid = Some (ISave.uid s), raw_version = Some (version s),
      raw_collection = Some (collection s), raw_decks = Some (decks s),
      raw_settings = Some (settings s)\<rparr>"

subsection \<open>JavaScript numbers and values\<close>

text \<open>
  The numbers that the full-card widget computes with are IEEE 754 doubles: not-a-number,
  the two infinities, and the finite doubles, each kept as the rational it stands for.
  The two zeros are one value here; they differ only under division by zero, and the
  sources divide by the constant 95 only. \<open>Finite q\<close> is a double when \<open>q\<close> is one; every
  operation rounds its result, so that it returns a double, and what holds for every
  rational argument holds for the doubles among them.
\<close>

datatype double = NaN | PInf | NInf | Finite rat

text \<open>Rounding a rational to the nearest integer, a tie going to the even one.\<close>

definition round_half_even :: "rat \<Rightarrow> int" where
  "round_half_even x =
     (let n = \<lfloor>x\<rfloor>; d = x - of_int n
      in if d < 1 / 2 then n else if 1 / 2 < d then n + 1 else if even n then n else n + 1)"

text \<open>
  Every finite double is a whole multiple of \<open>2 ^ - 1074\<close>. For a value \<open>a \<ge> 0\<close> counted
  in that unit, the doubles around it are \<open>2 ^ grid a\<close> apart: a significand has 53 bits,
  and below \<open>2 ^ 53\<close> units (the subnormal numbers and the first binade) the spacing is one
  unit. \<open>round53\<close> takes \<open>a\<close> to the nearest of them, a tie going to the even significand.
\<close>

definition grid :: "rat \<Rightarrow> nat" where
  "grid a = nat (bitlen \<lfloor>a\<rfloor> - 53)"

definition round53 :: "rat \<Rightarrow> rat" where
  "round53 a = of_int (round_half_even (a / 2 ^ grid a)) * 2 ^ grid a"

text \<open>
  The double that a real result is rounded to (round to nearest, ties to even): the largest
  finite double is \<open>(2 ^ 53 - 1) * 2 ^ 971\<close>, and what rounds to \<open>2 ^ 1024\<close> or above is an
  infinity.
\<close>

definition fl :: "rat \<Rightarrow> double" where
  "fl x =
     (let r = round53 (\<bar>x\<bar> * 2 ^ 1074)
      in if 2 ^ 2098 \<le> r then (if 0 < x then PInf else NInf)
         else Finite (sgn x * r / 2 ^ 1074))"

fun js_neg :: "double \<Rightarrow> double" where
  "js_neg NaN = NaN"
| "js_neg PInf = NInf"
| "js_neg NInf = PInf"
| "js_neg (Finite x) = Finite (- x)"

fun js_plus :: "double \<Rightarrow> double \<Rightarrow> double" where
  "js_plus NaN _ = NaN"
| "js_plus _ NaN = NaN"
| "js_plus PInf NInf = NaN"
| "js_plus NInf PInf = NaN"
| "js_plus PInf _ = PInf"
| "js_plus _ PInf = PInf"
| "js_plus NInf _ = NInf"
| "js_plus _ NInf = NInf"
| "js_plus (Finite x) (Finite y) = fl (x + y)"

definition js_minus :: "double \<Rightarrow> double \<Rightarrow> double" where
  "js_minus a b = js_plus a (js_neg b)"

fun js_times :: "double \<Rightarrow> double \<Rightarrow> double" where
  "js_times NaN _ = NaN"
| "js_times _ NaN = NaN"
| "js_times (Finite x) (Finite y) = fl (x * y)"
| "js_times (Finite x) b = (if x = 0 then NaN else if 0 < x then b else js_neg b)"
| "js_times a (Finite y) = (if y = 0 then NaN else if 0 < y then a else js_neg a)"
| "js_times PInf b = b"
| "js_times NInf b = js_neg b"

fun js_divide :: "double \<Rightarrow> double \<Rightarrow> double" where
  "js_divide NaN _ = NaN"
| "js_divide _ NaN = NaN"
| "js_divide (Finite x) (Finite y) =
     (if y = 0 then (if x = 0 then NaN else if 0 < x then PInf else NInf)
      else fl (x / y))"
| "js_divide (Finite x) b = Finite 0"
| "js_divide a (Finite y) = (if 0 \<le> y then a else js_neg a)"
| "js_divide a b = NaN"

text \<open>The comparisons \<open><=\<close> and \<open><\<close> of two numbers: false when either is not a number.\<close>

fun js_le :: "double \<Rightarrow> double \<Rightarrow> bool" where
  "js_le NaN _ = False"
| "js_le _ NaN = False"
| "js_le NInf _ = True"
| "js_le _ PInf = True"
| "js_le _ NInf = False"
| "js_le PInf _ = False"
| "js_le (Finite x) (Finite y) = (x \<le> y)"

fun js_lt :: "double \<Rightarrow> double \<Rightarrow> bool" where
  "js_lt NaN _ = False"
| "js_lt _ NaN = False"
| "js_lt PInf _ = False"
| "js_lt _ NInf = False"
| "js_lt NInf _ = True"
| "js_lt _ PInf = True"
| "js_lt (Finite x) (Finite y) = (x < y)"

text \<open>
  A value of type \<open>any\<close>, as far as the widget meets one: what a DOM input or an unbound
  \<open>@Input()\<close> holds. A string comes with the number that JavaScript converts it to
  (\<open>'5'\<close> with 5, \<open>''\<close> with 0, \<open>'abc'\<close> with NaN). Objects are left out.
\<close>

datatype jsval = Undefined | Null | Bool bool | Str string double | Num double


text \<open>The actions of \<open>store/digimon.actions\<close> that the sources dispatch.\<close>

datatype action =
    LoadSave ISave
  | SetSave ISave
  | AddCardToDeck string
  | ChangeCardCount string jsval

text \<open>The argument of \<open>messageService.add\<close>.\<close>

record Message =
  severity :: string
  summary :: string
  detail :: string

datatype error = SyntaxError | TypeError

section \<open>Collaborators of the components\<close>

text \<open>
  Modelled from the spec: \<open>DatabaseService.checkSaveValidity\<close> is not among the sources.
  The spec has it accept a raw, possibly stale save object and return a normalised save of
  the current schema: the version field is the current one, fields that are present are
  kept, missing fields are filled (from the empty save), and the identity of the user, when
  one is given, is merged in. It does not throw on missing fields. The first argument is
  \<open>emptySave\<close> of \<open>store/reducers/save.reducer\<close>, a constant that is not among the sources.
\<close>

definition checkSaveValidity :: "ISave \<Rightarrow> RawSave \<Rightarrow> IUser option \<Rightarrow> ISave" where
  "checkSaveValidity emptySave save user =
     \<lparr>uid = (case user of
               Some u \<Rightarrow> IUser.uid u
             | None \<Rightarrow> (case raw_uid save of Some x \<Rightarrow> x | None \<Rightarrow> ISave.uid emptySave)),
      version = version emptySave,
      collection = (case raw_collection save of Some c \<Rightarrow> c | None \<Rightarrow> collection emptySave),
      decks = (case raw_decks save of Some d \<Rightarrow> d | None \<Rightarrow> decks emptySave),
      settings = (case raw_settings save of Some p \<Rightarrow> p | None \<Rightarrow> settings emptySave)\<rparr>"

text \<open>
  What a component finds around it when a handler runs:
  \<^item> \<open>isLoggedIn\<close> and \<open>userData\<close> of the authentication service, as they are after
    \<open>authService.checkLocalStorage()\<close>;
  \<^item> \<open>localStorage\<close>: the item under the key \<open>Digimon-Card-Collector\<close>, \<open>None\<close> when
    \<open>getItem\<close> returns null;
  \<^item> \<open>JSON_parse\<close>: \<open>JSON.parse\<close> on a text that holds a save object, \<open>None\<close> when it throws
    a SyntaxError (texts that parse to something that is not an object are outside the model);
  \<^item> \<open>databaseService_loadSave\<close>: the values that the observable returned by
    \<open>databaseService.loadSave(uid, userData)\<close> emits, in order, \<open>None\<close> for null;
  \<^item> \<open>emptySave\<close>: the constant of the save reducer, whose version is the current version.
\<close>

record Env =
  isLoggedIn :: bool
  userData :: "IUser option"
  localStorage :: "string option"
  JSON_parse :: "string \<Rightarrow> RawSave option"
  databaseService_loadSave :: "string \<Rightarrow> IUser option \<Rightarrow> ISave option list"
  emptySave :: ISave

subsection \<open>Observables\<close>

text \<open>
  An observable is the list of the values it emits. The operator \<open>first()\<close> of rxjs passes
  the first value on and unsubscribes from its source; \<open>subscribe\<close> runs the callback on
  every value that reaches it, in order. On a source that ends without a value rxjs hands an
  EmptyError to the error handler of the subscriber; the subscribers in the sources have
  none, and their callback does not run.
\<close>

definition first :: "'a list \<Rightarrow> 'a list" where
  "first source = (case source of [] \<Rightarrow> [] | x # _ \<Rightarrow> [x])"

definition subscribe :: "('a \<Rightarrow> 's \<Rightarrow> 's) \<Rightarrow> 'a list \<Rightarrow> 's \<Rightarrow> 's" where
  "subscribe next source this = fold next source this"

section \<open>AppComponent\<close>

text \<open>
  The fields of the class, and the calls it makes on its injected services:
  \<open>store\<close> is the list of the actions passed to \<open>store.dispatch\<close>, oldest first,
  \<open>messageService\<close> the list of the messages passed to \<open>messageService.add\<close>, and
  \<open>databaseService\<close> the list of the user ids whose save was requested.
\<close>

record AppComponent =
  localStorageSave :: "RawSave option"
  spinner :: bool
  hide :: bool
  noSaveDialog :: bool
  retryDialog :: bool
  showChangelog :: bool
  store :: "action list"
  messageService :: "Message list"
  databaseService :: "string list"

definition dispatch :: "action \<Rightarrow> AppComponent \<Rightarrow> AppComponent" where
  "dispatch a this = this\<lparr>store := store this @ [a]\<rparr>"

definition checkForSave :: "Env \<Rightarrow> AppComponent \<Rightarrow> error + AppComponent" where
  "checkForSave env this =
     (case localStorage env of
        None \<Rightarrow> Inr (this\<lparr>localStorageSave := None\<rparr>)
      | Some found \<Rightarrow>
          if found = [] then Inr (this\<lparr>localStorageSave := None\<rparr>)
          else (case JSON_parse env found of
                  None \<Rightarrow> Inl SyntaxError
                | Some save \<Rightarrow> Inr (this\<lparr>localStorageSave := Some save\<rparr>)))"

definition startLoginOfflineDialog :: "Env \<Rightarrow> AppComponent \<Rightarrow> AppComponent" where
  "startLoginOfflineDialog env this =
     (case localStorageSave this of
        Some raw \<Rightarrow>
          (let save = checkSaveValidity (emptySave env) raw (userData env);
               this = this\<lparr>localStorageSave := Some (toRaw save)\<rparr>;
               this = dispatch (LoadSave save) this
           in this\<lparr>spinner := False, hide := False\<rparr>)
      | None \<Rightarrow> this\<lparr>spinner := False, noSaveDialog := True\<rparr>)"

definition startRetryDialog :: "AppComponent \<Rightarrow> AppComponent" where
  "startRetryDialog this = this\<lparr>spinner := False, retryDialog := True\<rparr>"

text \<open>The callback that \<open>loadSave\<close> subscribes to the fetch.\<close>

definition loadSave_next :: "Env \<Rightarrow> ISave option \<Rightarrow> AppComponent \<Rightarrow> AppComponent" where
  "loadSave_next env saveOrNull this =
     (case saveOrNull of
        None \<Rightarrow> startRetryDialog this
      | Some save \<Rightarrow>
          (let this = this\<lparr>spinner := False, hide := False\<rparr>;
               this = dispatch (LoadSave save) this;
               this = this\<lparr>showChangelog := (version save \<noteq> version (emptySave env))\<rparr>
           in dispatch (SetSave (save\<lparr>version := version (emptySave env)\<rparr>)) this))"

text \<open>
  \<open>userData!.uid\<close> on a null \<open>userData\<close> is a TypeError. The callback is run here on the
  values that the fetch delivers, after the request is made.
\<close>

definition loadSave :: "Env \<Rightarrow> AppComponent \<Rightarrow> error + AppComponent" where
  "loadSave env this =
     (case checkForSave env this of
        Inl e \<Rightarrow> Inl e
      | Inr this \<Rightarrow>
          if \<not> isLoggedIn env then Inr (startLoginOfflineDialog env this)
          else (case userData env of
                  None \<Rightarrow> Inl TypeError
                | Some u \<Rightarrow>
                    Inr (subscribe (loadSave_next env)
                          (first (databaseService_loadSave env (IUser.uid u) (userData env)))
                          (this\<lparr>databaseService := databaseService this @ [IUser.uid u]\<rparr>))))"


text \<open>
  The body of \<open>fileReader.onload\<close>, with \<open>result\<close> the text of the file. Whatever the
  \<open>try\<close> block throws is caught; of its calls only \<open>JSON.parse\<close> throws in this model.
\<close>

definition loadBackup_onload :: "Env \<Rightarrow> string \<Rightarrow> AppComponent \<Rightarrow> AppComponent" where
  "loadBackup_onload env result this =
     (case JSON_parse env result of
        Some raw \<Rightarrow>
          (let save = checkSaveValidity (emptySave env) raw None;
               this = dispatch (LoadSave save) this;
               this = this\<lparr>messageService := messageService this @
                        [\<lparr>severity = ''success'', summary = ''Save loaded!'',
                          detail = ''The save was loaded successfully!''\<rparr>]\<rparr>
           in this\<lparr>retryDialog := False, spinner := False, hide := False\<rparr>)
      | None \<Rightarrow>
          this\<lparr>messageService := messageService this @
                 [\<lparr>severity = ''warn'', summary = ''Save Error!'',
                   detail = ''The save was not loaded!''\<rparr>]\<rparr>)"

text \<open>
  \<open>input\<close> is the list of the texts of the selected files; \<open>readAsText(input.files[0])\<close>
  with no file selected is a TypeError.
\<close>

definition loadBackup :: "Env \<Rightarrow> string list \<Rightarrow> AppComponent \<Rightarrow> error + AppComponent" where
  "loadBackup env input this =
     (case input of
        [] \<Rightarrow> Inl TypeError
      | file # _ \<Rightarrow> Inr (loadBackup_onload env file this))"

definition createANewSave :: "Env \<Rightarrow> AppComponent \<Rightarrow> AppComponent" where
  "createANewSave env this =
     dispatch (SetSave (emptySave env))
       (this\<lparr>hide := False, noSaveDialog := False, retryDialog := False\<rparr>)"

text \<open>The field initialisers of the class, before the constructor calls \<open>loadSave\<close>.\<close>

definition AppComponent_new :: AppComponent where
  "AppComponent_new =
     \<lparr>localStorageSave = None, spinner = True, hide = True, noSaveDialog = False,
      retryDialog = False, showChangelog = False, store = [], messageService = [],
      databaseService = []\<rparr>"

section \<open>UserComponent\<close>

text \<open>
  The fields that the two handlers below write, and \<open>location\<close>, the list of the URLs
  passed to \<open>location.replaceState\<close>. \<open>getSave\<close> stands for
  \<open>digimonBackendService.getSave\<close>: the values its observable emits for a user id.
\<close>

record UserComponent =
  collection :: "ICountCard list"
  save :: "ISave option"
  decks :: "IDeck list"
  location :: "string list"

text \<open>\<open>userData?.uid\<close> is falsy for a null user and for an empty uid.\<close>

definition changeURL :: "IUser option \<Rightarrow> UserComponent \<Rightarrow> UserComponent" where
  "changeURL user this =
     (case user of
        None \<Rightarrow> this\<lparr>location := location this @ [''/user'']\<rparr>
      | Some u \<Rightarrow>
          if IUser.uid u \<noteq> [] then this\<lparr>location := location this @ [''/user/'' @ IUser.uid u]\<rparr>
          else this\<lparr>location := location this @ [''/user'']\<rparr>)"

text \<open>
  The callback that \<open>userChange\<close> subscribes to \<open>authService.authChange\<close>: it runs once
  for each change of the authentication state; \<open>user\<close> is \<open>authService.userData\<close> at
  that moment.
\<close>

definition userChange_next ::
  "IUser option \<Rightarrow> (string \<Rightarrow> ISave option list) \<Rightarrow> UserComponent \<Rightarrow> error + UserComponent" where
  "userChange_next user getSave this =
     (let this = changeURL user this
      in case user of
           None \<Rightarrow> Inl TypeError
         | Some u \<Rightarrow>
             Inr (subscribe (\<lambda>s this. this\<lparr>save := s\<rparr>)
                   (first (getSave (IUser.uid u))) this))"

text \<open>\<open>save?.decks ?? this.decks\<close>: the fields of the save when there is one.\<close>

definition checkURL_next :: "ISave option \<Rightarrow> UserComponent \<Rightarrow> UserComponent" where
  "checkURL_next save' this =
     this\<lparr>save := save',
          decks := (case save' of None \<Rightarrow> decks this | Some s \<Rightarrow> ISave.decks s),
          collection := (case save' of None \<Rightarrow> collection this | Some s \<Rightarrow> ISave.collection s)\<rparr>"

text \<open>
  \<open>params\<close> is the list of the values of \<open>params['id']\<close> that \<open>route.params\<close> emits,
  \<open>None\<close> for undefined. After \<open>first()\<close>, the filter calls \<open>changeURL\<close> on a falsy id and
  drops it; \<open>switchMap\<close> turns an id that passed into the first result of its fetch, on
  which the subscriber runs.
\<close>

definition checkURL ::
  "string option list \<Rightarrow> IUser option \<Rightarrow> (string \<Rightarrow> ISave option list) \<Rightarrow>
   UserComponent \<Rightarrow> UserComponent" where
  "checkURL params user getSave this =
     subscribe
       (\<lambda>p this.
          case p of
            None \<Rightarrow> changeURL user this
          | Some pid \<Rightarrow>
              if pid = [] then changeURL user this
              else subscribe checkURL_next (first (getSave pid)) this)
       (first params) this"

section \<open>FullCardComponent\<close>

text \<open>
  Modelled from the spec: ICard is declared in \<open>../models\<close>, not among the sources; a card
  has an id and a colour, and the sources read the id only.
\<close>

record ICard =
  id' :: string
  color :: string

text \<open>
  The inputs of the widget that its methods read, its card width, the cards emitted on
  \<open>viewCard\<close> and the actions passed to \<open>store.dispatch\<close>. A CSS length such as \<open>20vw\<close> is
  kept as its number and its unit.
\<close>

record FullCardComponent =
  card :: ICard
  count :: jsval
  compact :: bool
  collectionMode :: bool
  deckBuilder :: bool
  biggerCards :: bool
  collectionOnly :: bool
  cardWidth :: "double \<times> string"
  viewCard :: "ICard list"
  store :: "action list"






definition rangeToRange :: "double \<Rightarrow> double" where
  "rangeToRange input =
     js_plus
       (js_divide (js_times (js_minus input (Finite 5)) (js_minus (Finite 30) (Finite 20)))
          (js_minus (Finite 100) (Finite 5)))
       (Finite 20)"

definition setCardSize :: "double \<Rightarrow> FullCardComponent \<Rightarrow> FullCardComponent" where
  "setCardSize size' this =
     (if biggerCards this then this\<lparr>cardWidth := (Finite 20, ''vw'')\<rparr>
      else if deckBuilder this then this\<lparr>cardWidth := (Finite 5, ''vw'')\<rparr>
      else if compact this then this\<lparr>cardWidth := (rangeToRange (Finite 100), ''vmin'')\<rparr>
      else this\<lparr>cardWidth := (rangeToRange size', ''vmin'')\<rparr>)"





section \<open>The saves that reach the store\<close>



text \<open>The actions a handler dispatched, when it returned.\<close>

definition dispatched :: "error + AppComponent \<Rightarrow> action list" where
  "dispatched r = (case r of Inl e \<Rightarrow> [] | Inr this \<Rightarrow> AppComponent.store this)"


text \<open>
  The item under the storage key can be read: there is none, it is empty, or it parses.
\<close>

definition local_readable :: "Env \<Rightarrow> bool" where
  "local_readable env =
     (case localStorage env of
        None \<Rightarrow> True
      | Some found \<Rightarrow> found = [] \<or> JSON_parse env found \<noteq> None)"

section \<open>Concrete inputs\<close>

definition emptySave_v2 :: ISave where
  "emptySave_v2 =
     \<lparr>ISave.uid = [], version = 2, collection = [], decks = [], settings = []\<rparr>"

definition save_stale :: ISave where
  "save_stale =
     \<lparr>ISave.uid = ''u1'', version = 1, collection = [(''BT1-001'', 3)], decks = [],
      settings = []\<rparr>"

definition raw_stale :: RawSave where
  "raw_stale =
     \<lparr>raw_uid = Some ''u1'', raw_version = Some 1,
      raw_collection = Some [(''BT1-001'', 3)], raw_decks = None, raw_settings = None\<rparr>"

definition JSON_parse_example :: "string \<Rightarrow> RawSave option" where
  "JSON_parse_example text = (if text = ''{stale}'' then Some raw_stale else None)"

text \<open>A signed-in user whose remote save is of an older version; a local save exists too.\<close>

definition env_remote :: Env where
  "env_remote =
     \<lparr>isLoggedIn = True, userData = Some \<lparr>IUser.uid = ''u1''\<rparr>,
      localStorage = Some ''{stale}'', JSON_parse = JSON_parse_example,
      databaseService_loadSave = (\<lambda>_ _. [Some save_stale, None]),
      emptySave = emptySave_v2\<rparr>"

text \<open>A signed-in user whose fetch fails.\<close>

definition env_failing :: Env where
  "env_failing =
     \<lparr>isLoggedIn = True, userData = Some \<lparr>IUser.uid = ''u1''\<rparr>,
      localStorage = None, JSON_parse = JSON_parse_example,
      databaseService_loadSave = (\<lambda>_ _. [None, Some save_stale]),
      emptySave = emptySave_v2\<rparr>"

text \<open>Nobody signed in, a local save of an older version.\<close>

definition env_local :: Env where
  "env_local =
     \<lparr>isLoggedIn = False, userData = None,
      localStorage = Some ''{stale}'', JSON_parse = JSON_parse_example,
      databaseService_loadSave = (\<lambda>_ _. [Some save_stale]),
      emptySave = emptySave_v2\<rparr>"

text \<open>Nobody signed in, nothing stored.\<close>

definition env_none :: Env where
  "env_none =
     \<lparr>isLoggedIn = False, userData = None,
      localStorage = None, JSON_parse = JSON_parse_example,
      databaseService_loadSave = (\<lambda>_ _. [Some save_stale]),
      emptySave = emptySave_v2\<rparr>"

text \<open>A signed-in user, and a stored item that is not JSON.\<close>

definition env_unreadable :: Env where
  "env_unreadable =
     \<lparr>isLoggedIn = True, userData = Some \<lparr>IUser.uid = ''u1''\<rparr>,
      localStorage = Some ''{stal'', JSON_parse = JSON_parse_example,
      databaseService_loadSave = (\<lambda>_ _. [Some save_stale]),
      emptySave = emptySave_v2\<rparr>"

text \<open>A signed-in user whose fetch ends without a result.\<close>

definition env_silent :: Env where
  "env_silent =
     \<lparr>isLoggedIn = True, userData = Some \<lparr>IUser.uid = ''u1''\<rparr>,
      localStorage = None, JSON_parse = JSON_parse_example,
      databaseService_loadSave = (\<lambda>_ _. []),
      emptySave = emptySave_v2\<rparr>"

text \<open>Logged in, but without user data.\<close>

definition env_nouser :: Env where
  "env_nouser =
     \<lparr>isLoggedIn = True, userData = None,
      localStorage = None, JSON_parse = JSON_parse_example,
      databaseService_loadSave = (\<lambda>_ _. [Some save_stale]),
      emptySave = emptySave_v2\<rparr>"

definition FullCardComponent_example :: FullCardComponent where
  "FullCardComponent_example =
     \<lparr>card = \<lparr>id' = ''BT1-001'', color = ''Red''\<rparr>, count = Num (Finite 0),
      compact = True, collectionMode = False, deckBuilder = False, biggerCards = False,
      collectionOnly = False, cardWidth = (Finite 7, ''vmin''), viewCard = [],
      store = []\<rparr>"

section \<open>Properties of the load sequence\<close>

lemma checkForSave_keeps:
  "checkForSave env this = Inr this1 \<Longrightarrow>
     AppComponent.store this1 = AppComponent.store this \<and>
     messageService this1 = messageService this \<and>
     databaseService this1 = databaseService this \<and>
     noSaveDialog this1 = noSaveDialog this"
  by (auto simp: checkForSave_def split: option.splits if_splits)

lemma subscribe_first:
  "subscribe next' (first source) this = (case source of [] \<Rightarrow> this | x # _ \<Rightarrow> next' x this)"
  by (simp add: subscribe_def first_def split: list.splits)





lemma loadSave_remote:
  assumes "isLoggedIn env" and "userData env = Some u"
    and "checkForSave env this = Inr this1"
    and "databaseService_loadSave env (IUser.uid u) (userData env) = x # rest"
  shows "loadSave env this =
     Inr (loadSave_next env x
           (this1\<lparr>databaseService := databaseService this1 @ [IUser.uid u]\<rparr>))"
proof -
  from assms(2,4) have "databaseService_loadSave env (IUser.uid u) (Some u) = x # rest"
    by simp
  with assms(1-3) show ?thesis
    by (simp add: loadSave_def subscribe_first)
qed

lemma loadSave_local:
  assumes "\<not> isLoggedIn env" and "localStorage env = Some found" and "found \<noteq> []"
    and "JSON_parse env found = Some raw"
  shows "loadSave env this =
     Inr (startLoginOfflineDialog env (this\<lparr>localStorageSave := Some raw\<rparr>))"
  using assms by (simp add: loadSave_def checkForSave_def)

lemma loadSave_nothing:
  assumes "\<not> isLoggedIn env" and "localStorage env = None \<or> localStorage env = Some []"
  shows "loadSave env this =
     Inr (this\<lparr>localStorageSave := None, spinner := False, noSaveDialog := True\<rparr>)"
  using assms by (auto simp: loadSave_def checkForSave_def startLoginOfflineDialog_def)

lemma local_readable_checkForSave:
  assumes "local_readable env"
  shows "\<exists>this1. checkForSave env this = Inr this1"
  using assms by (auto simp: local_readable_def checkForSave_def split: option.splits)



lemma loadSave_no_result:
  assumes "isLoggedIn env" and "userData env = Some u"
    and "checkForSave env this = Inr this1"
    and "databaseService_loadSave env (IUser.uid u) (userData env) = []"
  shows "loadSave env this =
     Inr (this1\<lparr>databaseService := databaseService this1 @ [IUser.uid u]\<rparr>)"
proof -
  from assms(2,4) have "databaseService_loadSave env (IUser.uid u) (Some u) = []"
    by simp
  with assms(1-3) show ?thesis
    by (simp add: loadSave_def subscribe_first)
qed






subsection \<open>The source of the save\<close>

text \<open>
  C2 as stated fails. The stored item is parsed before anything else, outside any \<open>try\<close>:
  with an item that is not JSON the load throws, for a signed-in user before the save is
  requested. A signed-in user whose fetch delivers null gets the retry dialog and no
  dispatch. And \<open>userData!.uid\<close> throws when the user counts as logged in without user data.
\<close>

theorem C2_counterexample:
  "isLoggedIn env_unreadable \<and> loadSave env_unreadable AppComponent_new = Inl SyntaxError \<and>
   \<not> isLoggedIn (env_unreadable\<lparr>isLoggedIn := False\<rparr>) \<and>
   loadSave (env_unreadable\<lparr>isLoggedIn := False\<rparr>) AppComponent_new = Inl SyntaxError \<and>
   isLoggedIn env_failing \<and> \<not> isl (loadSave env_failing AppComponent_new) \<and>
   dispatched (loadSave env_failing AppComponent_new) = [] \<and>
   isLoggedIn env_nouser \<and> loadSave env_nouser AppComponent_new = Inl TypeError"
  by (simp add: loadSave_def checkForSave_def env_unreadable_def env_failing_def env_nouser_def
      JSON_parse_example_def dispatched_def subscribe_first loadSave_next_def
      startRetryDialog_def AppComponent_new_def)

text \<open>
  C2, as the code has it, for a stored item that can be read (none, an empty one, or one that
  parses to a save object). For a user who is logged in, with user data, the save is requested; the first
  result, when it is a save, is dispatched, a null first result shows the retry dialog, and
  without a result nothing happens; a local save is not dispatched. With nobody logged in,
  a local save under the storage key is validated and dispatched and nothing is requested;
  with nobody logged in and nothing stored, the no-save dialog is shown and nothing is
  dispatched or requested.
\<close>

theorem C2_amended:
  "(isLoggedIn env \<and> userData env = Some u \<and> local_readable env \<and>
    databaseService_loadSave env (IUser.uid u) (userData env) = Some fetched # rest \<longrightarrow>
      (\<exists>this'. loadSave env this = Inr this' \<and>
         databaseService this' = databaseService this @ [IUser.uid u] \<and>
         AppComponent.store this' = AppComponent.store this @
           [LoadSave fetched, SetSave (fetched\<lparr>version := version (emptySave env)\<rparr>)] \<and>
         noSaveDialog this' = noSaveDialog this)) \<and>
   (isLoggedIn env \<and> userData env = Some u \<and> local_readable env \<and>
    databaseService_loadSave env (IUser.uid u) (userData env) = None # rest \<longrightarrow>
      (\<exists>this'. loadSave env this = Inr this' \<and>
         databaseService this' = databaseService this @ [IUser.uid u] \<and>
         AppComponent.store this' = AppComponent.store this \<and>
         retryDialog this' \<and> noSaveDialog this' = noSaveDialog this)) \<and>
   (isLoggedIn env \<and> userData env = Some u \<and> local_readable env \<and>
    databaseService_loadSave env (IUser.uid u) (userData env) = [] \<longrightarrow>
      (\<exists>this'. loadSave env this = Inr this' \<and>
         databaseService this' = databaseService this @ [IUser.uid u] \<and>
         AppComponent.store this' = AppComponent.store this \<and>
         noSaveDialog this' = noSaveDialog this)) \<and>
   (\<not> isLoggedIn env \<and> localStorage env = Some found \<and> found \<noteq> [] \<and>
    JSON_parse env found = Some raw \<longrightarrow>
      (\<exists>this'. loadSave env this = Inr this' \<and>
         databaseService this' = databaseService this \<and>
         AppComponent.store this' = AppComponent.store this @
           [LoadSave (checkSaveValidity (emptySave env) raw (userData env))] \<and>
         noSaveDialog this' = noSaveDialog this)) \<and>
   (\<not> isLoggedIn env \<and> (localStorage env = None \<or> localStorage env = Some []) \<longrightarrow>
      (\<exists>this'. loadSave env this = Inr this' \<and>
         databaseService this' = databaseService this \<and>
         AppComponent.store this' = AppComponent.store this \<and>
         noSaveDialog this'))"
proof -
  have remote: "\<exists>this1. checkForSave env this = Inr this1 \<and>
      loadSave env this =
        Inr (loadSave_next env x
              (this1\<lparr>databaseService := databaseService this1 @ [IUser.uid u]\<rparr>))"
    if "isLoggedIn env \<and> userData env = Some u \<and> local_readable env \<and>
      databaseService_loadSave env (IUser.uid u) (userData env) = x # rest" for x
  proof -
    from that obtain this1 where c: "checkForSave env this = Inr this1"
      using local_readable_checkForSave[of env this] by blast
    from that have "isLoggedIn env" "userData env = Some u"
      "databaseService_loadSave env (IUser.uid u) (userData env) = x # rest"
      by blast+
    from loadSave_remote[OF this(1,2) c this(3)] c show ?thesis by blast
  qed
  have 1: "\<exists>this'. loadSave env this = Inr this' \<and>
         databaseService this' = databaseService this @ [IUser.uid u] \<and>
         AppComponent.store this' = AppComponent.store this @
           [LoadSave fetched, SetSave (fetched\<lparr>version := version (emptySave env)\<rparr>)] \<and>
         noSaveDialog this' = noSaveDialog this"
    if h: "isLoggedIn env \<and> userData env = Some u \<and> local_readable env \<and>
      databaseService_loadSave env (IUser.uid u) (userData env) = Some fetched # rest"
  proof -
    from remote[OF h] obtain this1 where c: "checkForSave env this = Inr this1"
      and l: "loadSave env this =
        Inr (loadSave_next env (Some fetched)
              (this1\<lparr>databaseService := databaseService this1 @ [IUser.uid u]\<rparr>))"
      by blast
    from l checkForSave_keeps[OF c] show ?thesis
      by (simp add: loadSave_next_def dispatch_def Let_def)
  qed
  have 2: "\<exists>this'. loadSave env this = Inr this' \<and>
         databaseService this' = databaseService this @ [IUser.uid u] \<and>
         AppComponent.store this' = AppComponent.store this \<and>
         retryDialog this' \<and> noSaveDialog this' = noSaveDialog this"
    if h: "isLoggedIn env \<and> userData env = Some u \<and> local_readable env \<and>
      databaseService_loadSave env (IUser.uid u) (userData env) = None # rest"
  proof -
    from remote[OF h] obtain this1 where c: "checkForSave env this = Inr this1"
      and l: "loadSave env this =
        Inr (loadSave_next env None
              (this1\<lparr>databaseService := databaseService this1 @ [IUser.uid u]\<rparr>))"
      by blast
    from l checkForSave_keeps[OF c] show ?thesis
      by (simp add: loadSave_next_def startRetryDialog_def)
  qed
  have 3: "\<exists>this'. loadSave env this = Inr this' \<and>
         databaseService this' = databaseService this @ [IUser.uid u] \<and>
         AppComponent.store this' = AppComponent.store this \<and>
         noSaveDialog this' = noSaveDialog this"
    if h: "isLoggedIn env \<and> userData env = Some u \<and> local_readable env \<and>
      databaseService_loadSave env (IUser.uid u) (userData env) = []"
  proof -
    from h obtain this1 where c: "checkForSave env this = Inr this1"
      using local_readable_checkForSave[of env this] by blast
    from h have "isLoggedIn env" "userData env = Some u"
      "databaseService_loadSave env (IUser.uid u) (userData env) = []"
      by blast+
    from loadSave_no_result[OF this(1,2) c this(3)] checkForSave_keeps[OF c] show ?thesis
      by simp
  qed
  have 4: "\<exists>this'. loadSave env this = Inr this' \<and>
         databaseService this' = databaseService this \<and>
         AppComponent.store this' = AppComponent.store this @
           [LoadSave (checkSaveValidity (emptySave env) raw (userData env))] \<and>
         noSaveDialog this' = noSaveDialog this"
    if h: "\<not> isLoggedIn env \<and> localStorage env = Some found \<and> found \<noteq> [] \<and>
      JSON_parse env found = Some raw"
  proof -
    from h have "loadSave env this =
       Inr (startLoginOfflineDialog env (this\<lparr>localStorageSave := Some raw\<rparr>))"
      by (intro loadSave_local) blast+
    then show ?thesis
      by (simp add: startLoginOfflineDialog_def dispatch_def Let_def)
  qed
  have 5: "\<exists>this'. loadSave env this = Inr this' \<and>
         databaseService this' = databaseService this \<and>
         AppComponent.store this' = AppComponent.store this \<and>
         noSaveDialog this'"
    if h: "\<not> isLoggedIn env \<and> (localStorage env = None \<or> localStorage env = Some [])"
  proof -
    from h have "loadSave env this =
       Inr (this\<lparr>localStorageSave := None, spinner := False, noSaveDialog := True\<rparr>)"
      by (intro loadSave_nothing) blast+
    then show ?thesis by simp
  qed
  from 1 2 3 4 5 show ?thesis by blast
qed

theorem C2_amended_witness:
  "local_readable env_remote \<and> local_readable env_failing \<and> local_readable env_silent \<and>
   dispatched (loadSave env_remote AppComponent_new) =
     [LoadSave save_stale, SetSave (save_stale\<lparr>version := version (emptySave env_remote)\<rparr>)] \<and>
   \<not> isl (loadSave env_failing AppComponent_new) \<and>
   dispatched (loadSave env_failing AppComponent_new) = [] \<and>
   \<not> isl (loadSave env_silent AppComponent_new) \<and>
   dispatched (loadSave env_silent AppComponent_new) = [] \<and>
   dispatched (loadSave env_local AppComponent_new) =
     [LoadSave (checkSaveValidity (emptySave env_local) raw_stale (userData env_local))] \<and>
   \<not> isl (loadSave env_none AppComponent_new) \<and>
   dispatched (loadSave env_none AppComponent_new) = []"
proof -
  have e: "AppComponent.store AppComponent_new = []"
    by (simp add: AppComponent_new_def)
  have r: "local_readable env_remote" "local_readable env_failing" "local_readable env_silent"
    by (simp_all add: local_readable_def env_remote_def env_failing_def env_silent_def
        JSON_parse_example_def)
  have "isLoggedIn env_remote \<and> userData env_remote = Some \<lparr>IUser.uid = ''u1''\<rparr> \<and>
    local_readable env_remote \<and>
    databaseService_loadSave env_remote (IUser.uid \<lparr>IUser.uid = ''u1''\<rparr>) (userData env_remote) =
      Some save_stale # [None]"
    using r by (simp add: env_remote_def)
  with C2_amended[where env = env_remote and u = "\<lparr>IUser.uid = ''u1''\<rparr>"
      and this = AppComponent_new and fetched = save_stale and rest = "[None]"]
  obtain a where "loadSave env_remote AppComponent_new = Inr a"
    and "AppComponent.store a = AppComponent.store AppComponent_new @
      [LoadSave save_stale, SetSave (save_stale\<lparr>version := version (emptySave env_remote)\<rparr>)]"
    by blast
  with e have 1: "dispatched (loadSave env_remote AppComponent_new) =
     [LoadSave save_stale, SetSave (save_stale\<lparr>version := version (emptySave env_remote)\<rparr>)]"
    by (simp add: dispatched_def)
  have "isLoggedIn env_failing \<and> userData env_failing = Some \<lparr>IUser.uid = ''u1''\<rparr> \<and>
    local_readable env_failing \<and>
    databaseService_loadSave env_failing (IUser.uid \<lparr>IUser.uid = ''u1''\<rparr>) (userData env_failing) =
      None # [Some save_stale]"
    using r by (simp add: env_failing_def)
  with C2_amended[where env = env_failing and u = "\<lparr>IUser.uid = ''u1''\<rparr>"
      and this = AppComponent_new and rest = "[Some save_stale]"]
  obtain b where "loadSave env_failing AppComponent_new = Inr b"
    and "AppComponent.store b = AppComponent.store AppComponent_new"
    by blast
  with e have 2: "\<not> isl (loadSave env_failing AppComponent_new) \<and>
     dispatched (loadSave env_failing AppComponent_new) = []"
    by (simp add: dispatched_def)
  have "isLoggedIn env_silent \<and> userData env_silent = Some \<lparr>IUser.uid = ''u1''\<rparr> \<and>
    local_readable env_silent \<and>
    databaseService_loadSave env_silent (IUser.uid \<lparr>IUser.uid = ''u1''\<rparr>) (userData env_silent) = []"
    using r by (simp add: env_silent_def)
  with C2_amended[where env = env_silent and u = "\<lparr>IUser.uid = ''u1''\<rparr>"
      and this = AppComponent_new]
  obtain c where "loadSave env_silent AppComponent_new = Inr c"
    and "AppComponent.store c = AppComponent.store AppComponent_new"
    by blast
  with e have 3: "\<not> isl (loadSave env_silent AppComponent_new) \<and>
     dispatched (loadSave env_silent AppComponent_new) = []"
    by (simp add: dispatched_def)
  have "\<not> isLoggedIn env_local \<and> localStorage env_local = Some ''{stale}'' \<and> ''{stale}'' \<noteq> [] \<and>
    JSON_parse env_local ''{stale}'' = Some raw_stale"
    by (simp add: env_local_def JSON_parse_example_def)
  with C2_amended[where env = env_local and this = AppComponent_new
      and found = "''{stale}''" and raw = raw_stale]
  obtain d where "loadSave env_local AppComponent_new = Inr d"
    and "AppComponent.store d = AppComponent.store AppComponent_new @
      [LoadSave (checkSaveValidity (emptySave env_local) raw_stale (userData env_local))]"
    by blast
  with e have 4: "dispatched (loadSave env_local AppComponent_new) =
     [LoadSave (checkSaveValidity (emptySave env_local) raw_stale (userData env_local))]"
    by (simp add: dispatched_def)
  have "\<not> isLoggedIn env_none \<and> (localStorage env_none = None \<or> localStorage env_none = Some [])"
    by (simp add: env_none_def)
  with C2_amended[where env = env_none and this = AppComponent_new]
  obtain f where "loadSave env_none AppComponent_new = Inr f"
    and "AppComponent.store f = AppComponent.store AppComponent_new"
    by blast
  with e have 5: "\<not> isl (loadSave env_none AppComponent_new) \<and>
     dispatched (loadSave env_none AppComponent_new) = []"
    by (simp add: dispatched_def)
  from r 1 2 3 4 5 show ?thesis by simp
qed

subsection \<open>Importing a file\<close>

text \<open>
  C3: a file whose text \<open>JSON.parse\<close> rejects. The import returns normally, dispatches
  nothing, so that the store is as it was, and adds the warning message; the component is
  otherwise unchanged.
\<close>

theorem C3_unparseable_import:
  assumes "JSON_parse env content = None"
  shows "\<exists>this'. loadBackup env (content # files) this = Inr this' \<and>
           AppComponent.store this' = AppComponent.store this \<and>
           messageService this' = messageService this @
             [\<lparr>severity = ''warn'', summary = ''Save Error!'',
               detail = ''The save was not loaded!''\<rparr>] \<and>
           this' = this\<lparr>messageService := messageService this'\<rparr>"
  using assms by (simp add: loadBackup_def loadBackup_onload_def)

theorem C3_unparseable_import_witness:
  "JSON_parse env_none ''{stal'' = None \<and>
   dispatched (loadBackup env_none [''{stal''] AppComponent_new) = [] \<and>
   \<not> isl (loadBackup env_none [''{stal''] AppComponent_new)"
proof -
  have h: "JSON_parse env_none ''{stal'' = None"
    by (simp add: env_none_def JSON_parse_example_def)
  from C3_unparseable_import[OF h, of "[]" AppComponent_new] h show ?thesis
    by (auto simp: dispatched_def AppComponent_new_def)
qed

text \<open>
  C4: a file that parses and carries an older version. The import dispatches one save; its
  version is the current version and every field that the file carries is in it unchanged.
\<close>

theorem C4_outdated_import:
  assumes "JSON_parse env content = Some raw"
    and "raw_version raw = Some v" and "v < version (emptySave env)"
  shows "\<exists>this' s. loadBackup env (content # files) this = Inr this' \<and>
           AppComponent.store this' = AppComponent.store this @ [LoadSave s] \<and>
           version s = version (emptySave env) \<and>
           (\<forall>x. raw_uid raw = Some x \<longrightarrow> ISave.uid s = x) \<and>
           (\<forall>x. raw_collection raw = Some x \<longrightarrow> ISave.collection s = x) \<and>
           (\<forall>x. raw_decks raw = Some x \<longrightarrow> ISave.decks s = x) \<and>
           (\<forall>x. raw_settings raw = Some x \<longrightarrow> settings s = x)"
  using assms
  by (simp add: loadBackup_def loadBackup_onload_def dispatch_def Let_def
      checkSaveValidity_def)

theorem C4_outdated_import_witness:
  "JSON_parse env_none ''{stale}'' = Some raw_stale \<and> raw_version raw_stale = Some 1 \<and>
   1 < version (emptySave env_none) \<and>
   (\<exists>this' s. loadBackup env_none [''{stale}''] AppComponent_new = Inr this' \<and>
      AppComponent.store this' = [LoadSave s] \<and> version s = 2 \<and>
      ISave.uid s = ''u1'' \<and> ISave.collection s = [(''BT1-001'', 3)])"
proof -
  have h: "JSON_parse env_none ''{stale}'' = Some raw_stale" "raw_version raw_stale = Some 1"
    "1 < version (emptySave env_none)"
    by (simp_all add: env_none_def JSON_parse_example_def raw_stale_def emptySave_v2_def)
  have r: "raw_uid raw_stale = Some ''u1''" "raw_collection raw_stale = Some [(''BT1-001'', 3)]"
    "version (emptySave env_none) = 2" "AppComponent.store AppComponent_new = []"
    by (simp_all add: raw_stale_def env_none_def emptySave_v2_def AppComponent_new_def)
  from C4_outdated_import[OF h, of "[]" AppComponent_new] r
  have "\<exists>this' s. loadBackup env_none [''{stale}''] AppComponent_new = Inr this' \<and>
      AppComponent.store this' = [LoadSave s] \<and> version s = 2 \<and>
      ISave.uid s = ''u1'' \<and> ISave.collection s = [(''BT1-001'', 3)]"
    by auto
  with h show ?thesis by blast
qed

subsection \<open>No save at all\<close>

text \<open>
  C5: nobody signed in and nothing under the storage key. \<open>loadSave\<close> shows the no-save
  dialog and dispatches nothing; \<open>createANewSave\<close> then dispatches the empty save.
\<close>

theorem C5_create_new_save:
  assumes "\<not> isLoggedIn env" and "localStorage env = None"
  shows "\<exists>this'. loadSave env this = Inr this' \<and> noSaveDialog this' \<and>
           AppComponent.store this' = AppComponent.store this \<and>
           AppComponent.store (createANewSave env this') =
             AppComponent.store this @ [SetSave (emptySave env)]"
  using assms
  by (simp add: loadSave_nothing createANewSave_def dispatch_def)

theorem C5_create_new_save_witness:
  "\<not> isLoggedIn env_none \<and> localStorage env_none = None \<and>
   (\<exists>this'. loadSave env_none AppComponent_new = Inr this' \<and> noSaveDialog this' \<and>
      AppComponent.store (createANewSave env_none this') = [SetSave emptySave_v2])"
proof -
  have h: "\<not> isLoggedIn env_none" "localStorage env_none = None"
    by (simp_all add: env_none_def)
  from C5_create_new_save[OF h, of AppComponent_new] h show ?thesis
    by (auto simp: AppComponent_new_def env_none_def)
qed

subsection \<open>The remote load\<close>




text \<open>
  C8: the fetch of a signed-in user delivers a save. Two actions are dispatched, the second
  being \<open>setSave\<close> of the fetched save with its version replaced by the current version and
  every other field as fetched; the changelog is shown exactly when the fetched version is
  not the current one.
\<close>

theorem C8_remote_load_frame:
  assumes "isLoggedIn env" and "userData env = Some u"
    and "checkForSave env this = Inr this1"
    and "databaseService_loadSave env (IUser.uid u) (userData env) = Some fetched # rest"
  shows "\<exists>this' stored. loadSave env this = Inr this' \<and>
           AppComponent.store this' = AppComponent.store this @ [LoadSave fetched, SetSave stored] \<and>
           stored = fetched\<lparr>version := version (emptySave env)\<rparr> \<and>
           version stored = version (emptySave env) \<and>
           ISave.uid stored = ISave.uid fetched \<and>
           ISave.collection stored = ISave.collection fetched \<and>
           ISave.decks stored = ISave.decks fetched \<and>
           settings stored = settings fetched \<and>
           (showChangelog this' \<longleftrightarrow> version fetched \<noteq> version (emptySave env))"
  using loadSave_remote[OF assms] checkForSave_keeps[OF assms(3)]
  by (simp add: loadSave_next_def dispatch_def Let_def)

theorem C8_remote_load_frame_witness:
  "isLoggedIn env_remote \<and> userData env_remote = Some \<lparr>IUser.uid = ''u1''\<rparr> \<and>
   (\<exists>this'. loadSave env_remote AppComponent_new = Inr this' \<and>
      AppComponent.store this' =
        [LoadSave save_stale, SetSave (save_stale\<lparr>version := 2\<rparr>)] \<and>
      showChangelog this')"
proof -
  have h: "isLoggedIn env_remote" "userData env_remote = Some \<lparr>IUser.uid = ''u1''\<rparr>"
    "checkForSave env_remote AppComponent_new =
       Inr (AppComponent_new\<lparr>localStorageSave := Some raw_stale\<rparr>)"
    "databaseService_loadSave env_remote (IUser.uid \<lparr>IUser.uid = ''u1''\<rparr>) (userData env_remote) =
       Some save_stale # [None]"
    by (simp_all add: env_remote_def checkForSave_def JSON_parse_example_def)
  have v: "version (emptySave env_remote) = 2" "version save_stale = 1"
    by (simp_all add: env_remote_def emptySave_v2_def save_stale_def)
  from C8_remote_load_frame[OF h] h(1,2) v show ?thesis
    by (auto simp: AppComponent_new_def)
qed


subsection \<open>First-result semantics of the fetches\<close>

lemma first_take: "first (take (Suc 0) xs) = first xs"
  by (cases xs) (simp_all add: first_def)

text \<open>
  C7: a subscriber behind \<open>first()\<close> runs on no value when the fetch emits none, and once,
  on the first value, otherwise. So what the load of the app, the handler of a change of
  user and the handler of the URL do depends on the first result of a fetch only: cutting
  every fetch down to its first result changes nothing.
\<close>

theorem C7_first_result_only:
  "length (first source) \<le> 1 \<and>
   subscribe next' (first source) this0 =
     (case source of [] \<Rightarrow> this0 | x # later \<Rightarrow> next' x this0) \<and>
   loadSave (env\<lparr>databaseService_loadSave :=
                  \<lambda>uid' user. take 1 (databaseService_loadSave env uid' user)\<rparr>) this =
     loadSave env this \<and>
   userChange_next user (\<lambda>uid'. take 1 (getSave uid')) uc = userChange_next user getSave uc \<and>
   checkURL (take 1 params) user (\<lambda>uid'. take 1 (getSave uid')) uc =
     checkURL params user getSave uc"
proof -
  note f = first_take
  have c: "checkForSave (env\<lparr>databaseService_loadSave := g\<rparr>) this = checkForSave env this"
    for g by (simp add: checkForSave_def split: option.splits)
  have n: "loadSave_next (env\<lparr>databaseService_loadSave := g\<rparr>) = loadSave_next env"
    for g by (intro ext) (simp add: loadSave_next_def split: option.splits)
  have s: "startLoginOfflineDialog (env\<lparr>databaseService_loadSave := g\<rparr>) =
      startLoginOfflineDialog env"
    for g by (intro ext) (simp add: startLoginOfflineDialog_def split: option.splits)
  have 1: "length (first source) \<le> 1"
    by (cases source) (simp_all add: first_def)
  have 2: "loadSave (env\<lparr>databaseService_loadSave :=
                  \<lambda>uid' user. take 1 (databaseService_loadSave env uid' user)\<rparr>) this =
     loadSave env this"
    by (simp add: loadSave_def c n s f split: sum.splits option.splits)
  have 3: "userChange_next user (\<lambda>uid'. take 1 (getSave uid')) uc =
      userChange_next user getSave uc"
    by (simp add: userChange_next_def f split: option.splits)
  have 4: "checkURL (take 1 params) user (\<lambda>uid'. take 1 (getSave uid')) uc =
     checkURL params user getSave uc"
    by (simp add: checkURL_def f cong: option.case_cong if_cong)
  from 1 2 3 4 show ?thesis by (simp add: subscribe_first)
qed

section \<open>Properties of the full-card widget\<close>

subsection \<open>Rounding to a double\<close>

lemma rhe_of_int [simp]: "round_half_even (of_int n) = n"
  by (simp add: round_half_even_def)

lemma rhe_lower: "\<lfloor>x\<rfloor> \<le> round_half_even x"
  by (simp add: round_half_even_def Let_def)

lemma rhe_upper: "round_half_even x \<le> \<lfloor>x\<rfloor> + 1"
  by (simp add: round_half_even_def Let_def)

lemma rhe_mono:
  assumes "x \<le> y"
  shows "round_half_even x \<le> round_half_even y"
proof (cases "\<lfloor>x\<rfloor> = \<lfloor>y\<rfloor>")
  case True
  with assms show ?thesis
    by (auto simp: round_half_even_def Let_def)
next
  case False
  with assms have "\<lfloor>x\<rfloor> < \<lfloor>y\<rfloor>"
    using floor_mono[OF assms] by linarith
  with rhe_upper[of x] rhe_lower[of y] show ?thesis by linarith
qed

lemma rhe_le_int: "x \<le> of_int z \<Longrightarrow> round_half_even x \<le> z"
  using rhe_mono[of x "of_int z"] by (simp only: rhe_of_int)

lemma rhe_ge_int: "of_int z \<le> x \<Longrightarrow> z \<le> round_half_even x"
  using rhe_mono[of "of_int z" x] by (simp only: rhe_of_int)

lemma rhe_nonneg: "0 \<le> x \<Longrightarrow> 0 \<le> round_half_even x"
  using rhe_ge_int[of 0 x] by simp

lemma rhe_zero [simp]: "round_half_even 0 = 0"
  using rhe_of_int[of 0] by simp

lemmas round53_grid = round53_def

lemma bitlen_mono: "a \<le> b \<Longrightarrow> bitlen a \<le> bitlen b"
  by (simp add: bitlen_def floorlog_mono)

lemma grid_mono: "a \<le> b \<Longrightarrow> grid a \<le> grid b"
  unfolding grid_def using bitlen_mono[OF floor_mono, of a b] by linarith

lemma below_grid:
  assumes "0 \<le> a"
  shows "a < 2 ^ (53 + grid a)"
proof -
  have "bitlen \<lfloor>a\<rfloor> \<le> int (53 + grid a)"
    by (simp add: grid_def)
  then have "\<lfloor>a\<rfloor> < 2 ^ nat (int (53 + grid a))"
    using bitlen_le_iff_power[of "\<lfloor>a\<rfloor>" "int (53 + grid a)"] by blast
  then have "\<lfloor>a\<rfloor> < 2 ^ (53 + grid a)"
    by (simp only: nat_int)
  then have "\<lfloor>a\<rfloor> < \<lfloor>(2::rat) ^ (53 + grid a)\<rfloor>"
    by simp
  then show ?thesis
    by (metis floor_less_cancel)
qed

lemma above_grid:
  assumes "0 < grid a"
  shows "2 ^ (52 + grid a) \<le> a"
proof -
  from assms have b: "bitlen \<lfloor>a\<rfloor> = 53 + int (grid a)"
    by (simp add: grid_def)
  then have "int (53 + grid a) \<le> bitlen \<lfloor>a\<rfloor>" by simp
  then have "2 ^ (nat (int (53 + grid a)) - 1) \<le> \<lfloor>a\<rfloor>"
    using bitlen_ge_iff_power[of "int (53 + grid a)" "\<lfloor>a\<rfloor>"] by simp
  moreover have "nat (int (53 + grid a)) - 1 = 52 + grid a"
    by (simp only: nat_int)
  ultimately have "(2::int) ^ (52 + grid a) \<le> \<lfloor>a\<rfloor>"
    by simp
  then have "of_int ((2::int) ^ (52 + grid a)) \<le> a"
    by (simp only: le_floor_iff)
  then show ?thesis by simp
qed

lemma round53_upper:
  assumes "0 \<le> a"
  shows "round53 a \<le> 2 ^ (53 + grid a)"
proof -
  have "a / 2 ^ grid a \<le> of_int (2 ^ 53)"
    using below_grid[OF assms] by (simp add: power_add field_simps)
  from rhe_le_int[OF this] have "round_half_even (a / 2 ^ grid a) \<le> 2 ^ 53" .
  then have "(of_int (round_half_even (a / 2 ^ grid a)) :: rat) \<le> of_int (2 ^ 53)"
    by (simp only: of_int_le_iff)
  then have "of_int (round_half_even (a / 2 ^ grid a)) * 2 ^ grid a \<le> (of_int (2 ^ 53) :: rat) * 2 ^ grid a"
    by (intro mult_right_mono) simp_all
  then show ?thesis by (simp add: round53_grid power_add)
qed

lemma round53_lower:
  assumes "0 < grid a"
  shows "2 ^ (52 + grid a) \<le> round53 a"
proof -
  have "of_int (2 ^ 52) \<le> a / 2 ^ grid a"
    using above_grid[OF assms] by (simp add: power_add field_simps)
  from rhe_ge_int[OF this] have "2 ^ 52 \<le> round_half_even (a / 2 ^ grid a)" .
  then have "(of_int (2 ^ 52) :: rat) \<le> of_int (round_half_even (a / 2 ^ grid a))"
    by (simp only: of_int_le_iff)
  then have "(of_int (2 ^ 52) :: rat) * 2 ^ grid a \<le> of_int (round_half_even (a / 2 ^ grid a)) * 2 ^ grid a"
    by (intro mult_right_mono) simp_all
  then show ?thesis by (simp add: round53_grid power_add)
qed

lemma round53_mono:
  assumes "0 \<le> a" and "a \<le> b"
  shows "round53 a \<le> round53 b"
proof (cases "grid a = grid b")
  case True
  from assms(2) have "a / 2 ^ grid b \<le> b / 2 ^ grid b"
    by (simp add: divide_right_mono)
  from rhe_mono[OF this]
  have "(of_int (round_half_even (a / 2 ^ grid b)) :: rat) \<le> of_int (round_half_even (b / 2 ^ grid b))"
    by simp
  then have "of_int (round_half_even (a / 2 ^ grid b)) * (2::rat) ^ grid b
               \<le> of_int (round_half_even (b / 2 ^ grid b)) * 2 ^ grid b"
    by (intro mult_right_mono) simp_all
  with True show ?thesis by (simp add: round53_grid)
next
  case False
  with grid_mono[OF assms(2)] have lt: "grid a < grid b" by simp
  then have pos: "0 < grid b" by simp
  from lt have "53 + grid a \<le> 52 + grid b" by simp
  then have "(2::rat) ^ (53 + grid a) \<le> 2 ^ (52 + grid b)"
    by (intro power_increasing) simp_all
  with round53_upper[OF assms(1)] round53_lower[OF pos] show ?thesis by linarith
qed

lemma round53_nonneg: "0 \<le> a \<Longrightarrow> 0 \<le> round53 a"
  by (simp add: round53_grid rhe_nonneg)

lemma round53_zero [simp]: "round53 0 = 0"
  by (simp add: round53_grid)


lemma fl_neg: "fl (- x) = js_neg (fl x)"
  by (simp add: fl_def Let_def sgn_if)

lemma js_le_neg: "js_le (js_neg a) (js_neg b) = js_le b a"
  by (cases a; cases b) simp_all

lemma js_le_trans: "js_le a b \<Longrightarrow> js_le b c \<Longrightarrow> js_le a c"
  by (cases a; cases b; cases c) simp_all

lemma js_le_refl: "a \<noteq> NaN \<Longrightarrow> js_le a a"
  by (cases a) simp_all

lemma fl_not_NaN [simp]: "fl x \<noteq> NaN"
  by (simp add: fl_def Let_def)

lemma fl_zero [simp]: "fl 0 = Finite 0"
  by (simp add: fl_def)

lemma fl_mono_nonneg:
  assumes "0 \<le> x" and "x \<le> y"
  shows "js_le (fl x) (fl y)"
proof -
  let ?a = "\<bar>x\<bar> * 2 ^ 1074" and ?b = "\<bar>y\<bar> * 2 ^ 1074"
  from assms have "0 \<le> ?a" and "?a \<le> ?b" by simp_all
  then have r: "round53 ?a \<le> round53 ?b" and n: "0 \<le> round53 ?a"
    by (simp_all add: round53_mono round53_nonneg)
  show ?thesis
  proof (cases "x = 0")
    case True
    with assms n r show ?thesis
      by (auto simp: fl_def Let_def sgn_if divide_nonneg_nonneg)
  next
    case False
    with assms have "0 < x" "0 < y" by simp_all
    with r show ?thesis
      by (auto simp: fl_def Let_def sgn_if divide_right_mono)
  qed
qed

lemma fl_mono:
  assumes "x \<le> y"
  shows "js_le (fl x) (fl y)"
proof -
  consider "0 \<le> x" | "y \<le> 0" | "x \<le> 0" "0 \<le> y" by linarith
  then show ?thesis
  proof cases
    case 1
    from this assms show ?thesis by (rule fl_mono_nonneg)
  next
    case 2
    with assms have "js_le (fl (- y)) (fl (- x))"
      by (intro fl_mono_nonneg) simp_all
    then show ?thesis by (simp add: fl_neg js_le_neg)
  next
    case 3
    then have "js_le (fl (- x)) (fl (- x))" "js_le (fl 0) (fl (- x))" "js_le (fl 0) (fl y)"
      by (simp_all add: fl_mono_nonneg js_le_refl del: fl_zero)
    then have "js_le (fl x) (Finite 0)" "js_le (Finite 0) (fl y)"
      using js_le_neg[of "Finite 0" "fl x"] by (simp_all add: fl_neg)
    then show ?thesis by (rule js_le_trans)
  qed
qed

lemma round53_multiple:
  assumes "a = of_int m * 2 ^ grid a"
  shows "round53 a = a"
proof -
  have "a / 2 ^ grid a = of_int m"
    by (subst assms) simp
  then show ?thesis
    using assms by (simp add: round53_grid)
qed

lemma grid_scaled:
  assumes "0 \<le> m" and "m < 2 ^ 53"
  shows "grid (of_int m * 2 ^ j) \<le> j"
proof (cases "m = 0")
  case True
  then show ?thesis by (simp add: grid_def)
next
  case False
  with assms have "0 < m" by simp
  then have "bitlen (m * 2 ^ j) = bitlen m + int j" by simp
  moreover from assms have "bitlen m \<le> 53"
    using bitlen_le_iff_power[of m 53] by simp
  moreover have "\<lfloor>(of_int m :: rat) * 2 ^ j\<rfloor> = m * 2 ^ j"
    by (metis floor_of_int of_int_mult of_int_numeral of_int_power)
  ultimately show ?thesis by (simp add: grid_def)
qed

lemma round53_scaled:
  assumes "0 \<le> m" and "m < 2 ^ 53"
  shows "round53 (of_int m * 2 ^ j) = of_int m * 2 ^ j"
proof -
  let ?a = "(of_int m :: rat) * 2 ^ j"
  let ?g = "grid ?a"
  from grid_scaled[OF assms] have g: "?g \<le> j" .
  then have "(2::rat) ^ j = 2 ^ (j - ?g) * 2 ^ ?g"
    by (simp flip: power_add)
  then have "?a = of_int (m * 2 ^ (j - ?g)) * 2 ^ ?g"
    by simp
  then show ?thesis by (rule round53_multiple)
qed

lemma fl_dyadic:
  assumes "\<bar>m\<bar> < 2 ^ 53" and "j \<le> 2045"
  shows "fl (of_int m * 2 ^ j / 2 ^ 1074) = Finite (of_int m * 2 ^ j / 2 ^ 1074)"
proof -
  let ?x = "(of_int m :: rat) * 2 ^ j / 2 ^ 1074"
  have a: "\<bar>?x\<bar> * 2 ^ 1074 = of_int \<bar>m\<bar> * 2 ^ j"
    by (simp add: abs_mult)
  from assms have r: "round53 (of_int \<bar>m\<bar> * 2 ^ j) = of_int \<bar>m\<bar> * 2 ^ j"
    by (intro round53_scaled) simp_all
  from assms(1) have "(of_int \<bar>m\<bar> :: rat) < of_int (2 ^ 53)"
    by (simp only: of_int_less_iff)
  then have "(of_int \<bar>m\<bar> :: rat) * 2 ^ j < of_int (2 ^ 53) * 2 ^ j"
    by (intro mult_strict_right_mono) simp_all
  also have "\<dots> = 2 ^ (53 + j)" by (simp add: power_add)
  also from assms(2) have "\<dots> \<le> (2::rat) ^ 2098"
    by (intro power_increasing) simp_all
  finally have lt: "(of_int \<bar>m\<bar> :: rat) * 2 ^ j < 2 ^ 2098" .
  have s: "sgn ?x * (of_int \<bar>m\<bar> * 2 ^ j) / 2 ^ 1074 = ?x"
    by (simp add: sgn_if abs_if zero_less_mult_iff mult_less_0_iff)
  from lt show ?thesis
    unfolding fl_def a r Let_def using s by simp
qed

lemma fl_int:
  assumes "\<bar>n\<bar> < 2 ^ 53"
  shows "fl (of_int n) = Finite (of_int n)"
  using fl_dyadic[OF assms, of 1074] by simp


lemma grid_eqI:
  assumes "2 ^ (52 + g) \<le> a" and "a < 2 ^ (53 + g)"
  shows "grid a = g"
proof -
  from assms(1) have "of_int (2 ^ (52 + g)) \<le> a" by simp
  then have lo: "(2::int) ^ (52 + g) \<le> \<lfloor>a\<rfloor>"
    by (simp only: le_floor_iff)
  from assms(2) have "a < of_int (2 ^ (53 + g))" by simp
  then have hi: "\<lfloor>a\<rfloor> < (2::int) ^ (53 + g)"
    by (simp only: floor_less_iff)
  from hi have "bitlen \<lfloor>a\<rfloor> \<le> int (53 + g)"
    using bitlen_le_iff_power[of "\<lfloor>a\<rfloor>" "int (53 + g)"] by (simp only: nat_int) simp
  moreover have "nat (int (53 + g)) - 1 = 52 + g"
    by (simp only: nat_int)
  with lo have "int (53 + g) \<le> bitlen \<lfloor>a\<rfloor>"
    using bitlen_ge_iff_power[of "int (53 + g)" "\<lfloor>a\<rfloor>"] by simp
  ultimately have "bitlen \<lfloor>a\<rfloor> = int (53 + g)" by simp
  then show ?thesis by (simp add: grid_def)
qed

lemma fl_grid:
  assumes "grid (\<bar>x\<bar> * 2 ^ 1074) = g"
  shows "fl x =
     (let r = of_int (round_half_even (\<bar>x\<bar> * 2 ^ 1074 / 2 ^ g)) * 2 ^ g
      in if 2 ^ 2098 \<le> r then (if 0 < x then PInf else NInf)
         else Finite (sgn x * r / 2 ^ 1074))"
  using assms by (simp add: fl_def round53_grid)

lemma floor_rat_numeral:
  "\<lfloor>(numeral a / numeral b :: rat)\<rfloor> = numeral a div numeral b"
  by (metis floor_divide_of_int_eq of_int_numeral)


lemma fl_int_le:
  assumes "\<bar>n\<bar> \<le> 2 ^ 53"
  shows "fl (of_int n) = Finite (of_int n)"
proof (cases "\<bar>n\<bar> < 2 ^ 53")
  case True
  then show ?thesis by (rule fl_int)
next
  case False
  with assms have "n = 2 ^ 53 \<or> n = - (2 ^ 53)" by linarith
  then show ?thesis
    using fl_dyadic[of 1 1127] fl_dyadic[of "- 1" 1127] by auto
qed




lemma js_le_NInf [simp]: "js_le NInf a = (a \<noteq> NaN)"
  by (cases a) simp_all

lemma js_le_PInf [simp]: "js_le a PInf = (a \<noteq> NaN)"
  by (cases a) simp_all

subsection \<open>Arithmetic with a finite constant is monotone\<close>

lemma js_plus_mono:
  assumes "js_le a b"
  shows "js_le (js_plus a (Finite c)) (js_plus b (Finite c))"
  using assms by (cases a; cases b) (simp_all add: fl_mono)

lemma js_minus_mono:
  assumes "js_le a b"
  shows "js_le (js_minus a (Finite c)) (js_minus b (Finite c))"
  using js_plus_mono[OF assms, of "- c"] by (simp add: js_minus_def)

lemma js_times_mono:
  assumes "js_le a b" and "0 < c"
  shows "js_le (js_times a (Finite c)) (js_times b (Finite c))"
  using assms by (cases a; cases b) (simp_all add: fl_mono)

lemma js_divide_mono:
  assumes "js_le a b" and "0 < c"
  shows "js_le (js_divide a (Finite c)) (js_divide b (Finite c))"
  using assms by (cases a; cases b) (simp_all add: fl_mono divide_right_mono)

lemma fl_numeral:
  "numeral w \<le> (2::int) ^ 53 \<Longrightarrow> fl (numeral w) = Finite (numeral w)"
  "numeral w \<le> (2::int) ^ 53 \<Longrightarrow> fl (- numeral w) = Finite (- numeral w)"
  using fl_int_le[of "numeral w"] fl_int_le[of "- numeral w"] by simp_all

lemma rangeToRange_folded:
  "rangeToRange x =
     js_plus (js_divide (js_times (js_minus x (Finite 5)) (Finite 10)) (Finite 95)) (Finite 20)"
  by (simp add: rangeToRange_def js_minus_def fl_numeral)

lemma rangeToRange_mono:
  assumes "js_le x y"
  shows "js_le (rangeToRange x) (rangeToRange y)"
  unfolding rangeToRange_folded
  by (intro js_plus_mono js_divide_mono js_times_mono js_minus_mono assms) simp_all

lemma rangeToRange_5: "rangeToRange (Finite 5) = Finite 20"
  by (simp add: rangeToRange_folded js_minus_def fl_numeral)

lemma rangeToRange_100: "rangeToRange (Finite 100) = Finite 30"
  by (simp add: rangeToRange_folded js_minus_def fl_numeral)


subsection \<open>Counting up and down\<close>












lemma fl_tie_up: "fl (- 4 + 1 / 2 ^ 52) = Finite (- 4)"
proof -
  have "grid (\<bar>- 4 + 1 / 2 ^ 52 :: rat\<bar> * 2 ^ 1074) = 1023"
    by (rule grid_eqI) simp_all
  from fl_grid[OF this] show ?thesis
    by (simp add: round_half_even_def Let_def floor_rat_numeral)
qed





text \<open>
  C10 as stated fails: \<open>compact\<close> is looked at after \<open>biggerCards\<close> and \<open>deckBuilder\<close>, so a
  compact widget with bigger cards gets the width \<open>20vw\<close>; and \<open>rangeToRange\<close> takes 1 and
  the next double above 1 to the same value, so it is not strictly increasing.
\<close>

theorem C10_counterexample:
  "compact (FullCardComponent_example\<lparr>biggerCards := True\<rparr>) \<and>
   cardWidth (setCardSize (Finite 50) (FullCardComponent_example\<lparr>biggerCards := True\<rparr>)) =
     (Finite 20, ''vw'') \<and>
   cardWidth (setCardSize (Finite 50) (FullCardComponent_example\<lparr>biggerCards := True\<rparr>)) \<noteq>
     (Finite 30, ''vmin'') \<and>
   js_lt (Finite 1) (Finite (1 + 1 / 2 ^ 52)) \<and>
   rangeToRange (Finite 1) = rangeToRange (Finite (1 + 1 / 2 ^ 52))"
proof -
  have a: "js_minus (Finite 1) (Finite 5) = Finite (- 4)"
    using fl_int_le[of "- 4"] by (simp add: js_minus_def)
  have "(1 + 1 / 2 ^ 52 + - 5 :: rat) = - 4 + 1 / 2 ^ 52" by simp
  then have b: "js_minus (Finite (1 + 1 / 2 ^ 52)) (Finite 5) = Finite (- 4)"
    using fl_tie_up by (simp only: js_minus_def js_neg.simps js_plus.simps)
  have "rangeToRange (Finite 1) = rangeToRange (Finite (1 + 1 / 2 ^ 52))"
    unfolding rangeToRange_folded a b ..
  then show ?thesis
    by (simp add: setCardSize_def FullCardComponent_example_def)
qed

text \<open>
  C10, as the code has it: \<open>rangeToRange\<close> computes \<open>((x - 5) * 10) / 95 + 20\<close> in doubles,
  every operation rounded; it is increasing, with 5 going to 20 and 100 to 30, so that
  inputs from 5 to 100 land between 20 and 30. \<open>setCardSize\<close> sets \<open>20vw\<close> with
  \<open>biggerCards\<close>, else \<open>5vw\<close> with \<open>deckBuilder\<close>, else \<open>30vmin\<close> in compact mode, else the
  image of the size in \<open>vmin\<close>.
\<close>

theorem C10_amended:
  "rangeToRange x =
     js_plus (js_divide (js_times (js_minus x (Finite 5)) (Finite 10)) (Finite 95)) (Finite 20) \<and>
   (js_le x y \<longrightarrow> js_le (rangeToRange x) (rangeToRange y)) \<and>
   rangeToRange (Finite 5) = Finite 20 \<and> rangeToRange (Finite 100) = Finite 30 \<and>
   (js_le (Finite 5) x \<and> js_le x (Finite 100) \<longrightarrow>
      js_le (Finite 20) (rangeToRange x) \<and> js_le (rangeToRange x) (Finite 30)) \<and>
   (biggerCards this \<longrightarrow> cardWidth (setCardSize size' this) = (Finite 20, ''vw'')) \<and>
   (\<not> biggerCards this \<and> deckBuilder this \<longrightarrow>
      cardWidth (setCardSize size' this) = (Finite 5, ''vw'')) \<and>
   (\<not> biggerCards this \<and> \<not> deckBuilder this \<and> compact this \<longrightarrow>
      cardWidth (setCardSize size' this) = (Finite 30, ''vmin'')) \<and>
   (\<not> biggerCards this \<and> \<not> deckBuilder this \<and> \<not> compact this \<longrightarrow>
      cardWidth (setCardSize size' this) = (rangeToRange size', ''vmin''))"
proof -
  have "js_le (Finite 20) (rangeToRange x) \<and> js_le (rangeToRange x) (Finite 30)"
    if "js_le (Finite 5) x \<and> js_le x (Finite 100)"
    using that rangeToRange_mono[of "Finite 5" x] rangeToRange_mono[of x "Finite 100"]
    by (simp add: rangeToRange_5 rangeToRange_100)
  then show ?thesis
    using rangeToRange_mono[of x y] rangeToRange_folded[of x]
    by (simp add: rangeToRange_5 rangeToRange_100 setCardSize_def)
qed

theorem C10_amended_witness:
  "js_le (Finite 50) (Finite 60) \<and> js_le (rangeToRange (Finite 50)) (rangeToRange (Finite 60)) \<and>
   js_le (Finite 5) (Finite 50) \<and> js_le (Finite 50) (Finite 100) \<and>
   js_le (Finite 20) (rangeToRange (Finite 50)) \<and> js_le (rangeToRange (Finite 50)) (Finite 30) \<and>
   biggerCards (FullCardComponent_example\<lparr>biggerCards := True\<rparr>) \<and>
   cardWidth (setCardSize (Finite 50) (FullCardComponent_example\<lparr>biggerCards := True\<rparr>)) =
     (Finite 20, ''vw'') \<and>
   deckBuilder (FullCardComponent_example\<lparr>deckBuilder := True\<rparr>) \<and>
   cardWidth (setCardSize (Finite 50) (FullCardComponent_example\<lparr>deckBuilder := True\<rparr>)) =
     (Finite 5, ''vw'') \<and>
   compact FullCardComponent_example \<and>
   cardWidth (setCardSize (Finite 50) FullCardComponent_example) = (Finite 30, ''vmin'') \<and>
   \<not> compact (FullCardComponent_example\<lparr>compact := False\<rparr>) \<and>
   cardWidth (setCardSize (Finite 50) (FullCardComponent_example\<lparr>compact := False\<rparr>)) =
     (rangeToRange (Finite 50), ''vmin'')"
proof -
  have f: "biggerCards (FullCardComponent_example\<lparr>biggerCards := True\<rparr>)"
    "\<not> biggerCards (FullCardComponent_example\<lparr>deckBuilder := True\<rparr>)"
    "deckBuilder (FullCardComponent_example\<lparr>deckBuilder := True\<rparr>)"
    "\<not> biggerCards FullCardComponent_example" "\<not> deckBuilder FullCardComponent_example"
    "compact FullCardComponent_example"
    "\<not> biggerCards (FullCardComponent_example\<lparr>compact := False\<rparr>)"
    "\<not> deckBuilder (FullCardComponent_example\<lparr>compact := False\<rparr>)"
    "\<not> compact (FullCardComponent_example\<lparr>compact := False\<rparr>)"
    by (simp_all add: FullCardComponent_example_def)
  have l: "js_le (Finite 50) (Finite 60)" "js_le (Finite 5) (Finite 50)"
    "js_le (Finite 50) (Finite 100)"
    by simp_all
  from C10_amended[of "Finite 50" "Finite 60"
      "FullCardComponent_example\<lparr>biggerCards := True\<rparr>" "Finite 50"] f l
  have 1: "js_le (rangeToRange (Finite 50)) (rangeToRange (Finite 60))"
    "js_le (Finite 20) (rangeToRange (Finite 50))" "js_le (rangeToRange (Finite 50)) (Finite 30)"
    "cardWidth (setCardSize (Finite 50) (FullCardComponent_example\<lparr>biggerCards := True\<rparr>)) =
       (Finite 20, ''vw'')"
    by blast+
  from C10_amended[of "Finite 50" "Finite 60"
      "FullCardComponent_example\<lparr>deckBuilder := True\<rparr>" "Finite 50"] f
  have 2: "cardWidth (setCardSize (Finite 50) (FullCardComponent_example\<lparr>deckBuilder := True\<rparr>)) =
       (Finite 5, ''vw'')"
    by blast
  from C10_amended[of "Finite 50" "Finite 60" FullCardComponent_example "Finite 50"] f
  have 3: "cardWidth (setCardSize (Finite 50) FullCardComponent_example) = (Finite 30, ''vmin'')"
    by blast
  from C10_amended[of "Finite 50" "Finite 60"
      "FullCardComponent_example\<lparr>compact := False\<rparr>" "Finite 50"] f
  have 4: "cardWidth (setCardSize (Finite 50) (FullCardComponent_example\<lparr>compact := False\<rparr>)) =
       (rangeToRange (Finite 50), ''vmin'')"
    by blast
  from f l 1 2 3 4 show ?thesis by (simp only: simp_thms)
qed

end
